theory Spec2Isabelle
  imports Main "HOL-Library.Sublist"
begin

section \<open>Python values used by script.py\<close>

text \<open>
  The exceptions the script can meet.  \<open>FileNotFoundError\<close> is kept apart because
  \<open>create_email_message\<close> has a handler of its own for it; \<open>KeyError\<close> is what a
  dictionary lookup raises, \<open>ValueError\<close> what the constructor raises.  Every other
  subclass of \<open>Exception\<close> (PermissionError, UnicodeDecodeError, TypeError, the SMTP
  errors, ...) is \<open>OtherError cls msg\<close> with its class name and message.
\<close>

datatype py_exn =
    FileNotFoundError string
  | KeyError string
  | ValueError string
  | OtherError string string

fun is_FileNotFoundError :: "py_exn \<Rightarrow> bool" where
  "is_FileNotFoundError (FileNotFoundError p) = True"
| "is_FileNotFoundError e = False"

text \<open>A \<open>Dict[str, str]\<close>; \<open>d[k]\<close> raises KeyError when the key is missing.\<close>

type_synonym py_dict = "string \<rightharpoonup> string"

definition getitem :: "py_dict \<Rightarrow> string \<Rightarrow> py_exn + string" where
  "getitem d k = (case d k of None \<Rightarrow> Inl (KeyError k) | Some v \<Rightarrow> Inr v)"

text \<open>
  \<open>str.replace(old, new)\<close>: the occurrences of \<open>old\<close> are found from left to right
  and do not overlap; an empty \<open>old\<close> matches before every character and at the end.
\<close>

function (sequential) replace :: "'a list \<Rightarrow> 'a list \<Rightarrow> 'a list \<Rightarrow> 'a list" where
  "replace [] new s = new @ concat (map (\<lambda>c. c # new) s)"
| "replace old new [] = []"
| "replace old new (c # cs) =
     (if prefix old (c # cs) then new @ replace old new (drop (length old) (c # cs))
      else c # replace old new cs)"
  by pat_completeness auto
termination
  by (relation "measure (\<lambda>(old, new, s). length s)") auto

section \<open>Configuration: \<open>CIDEmailSender.__init__\<close>\<close>





datatype ssl_context = DefaultContext

record mailer =
  smtp_server :: string
  smtp_port :: int
  sender_email :: string
  sender_password :: string
  ssl_ctx :: ssl_context


section \<open>Messages\<close>

text \<open>
  A MIME part as the script builds it: \<open>MIMEText(html_content, "html")\<close> with its text
  and subtype, \<open>MIMEImage(data)\<close> with the image data, the subtype the library detected
  in the data, and the headers added with \<open>add_header\<close>.
\<close>

datatype part =
    MIMEText string string
  | MIMEImage string string "(string \<times> string) list"

text \<open>
  \<open>MIMEMultipart('related')\<close>: its subtype, the headers set with \<open>msg[...] = ...\<close> in
  the order they were set, and the parts attached, in order.
\<close>

record message =
  subtype :: string
  headers :: "(string \<times> string) list"
  payload :: "part list"

definition set_header :: "string \<Rightarrow> string \<Rightarrow> message \<Rightarrow> message" where
  "set_header k v msg = msg\<lparr>headers := headers msg @ [(k, v)]\<rparr>"

definition attach :: "part \<Rightarrow> message \<Rightarrow> message" where
  "attach p msg = msg\<lparr>payload := payload msg @ [p]\<rparr>"

section \<open>The outside world\<close>

text \<open>
  What one SMTP session answers: for each step of the session the exception it raises,
  or \<open>None\<close> when the step succeeds.  \<open>quit_err\<close> is the exception \<open>SMTP.__exit__\<close>
  raises when the server does not acknowledge QUIT.
\<close>

record session =
  connect_err :: "py_exn option"
  starttls_err :: "py_exn option"
  login_err :: "py_exn option"
  send_err :: "py_exn option"
  quit_err :: "py_exn option"

text \<open>
  The files and the SMTP server the script talks to.  \<open>text_file p\<close> is the outcome of
  \<open>open(p, 'r', encoding='utf-8').read()\<close>, \<open>binary_file p\<close> that of
  \<open>open(p, 'rb').read()\<close>, \<open>image_subtype d\<close> the image type \<open>MIMEImage\<close> detects in
  the data \<open>d\<close> (\<open>None\<close>: it raises TypeError), and \<open>smtp n\<close> the answers of the server
  to the \<open>n\<close>-th connection the process makes.
\<close>

record host =
  text_file :: "string \<Rightarrow> py_exn + string"
  binary_file :: "string \<Rightarrow> py_exn + string"
  image_subtype :: "string \<Rightarrow> string option"
  smtp :: "nat \<Rightarrow> session"

datatype log_record =
    TemplateNotFound string
  | CreateError py_exn
  | SentOk string
  | SendFailed string py_exn

datatype event =
    Connected string int
  | ConnectFailed string int
  | StartTLS ssl_context
  | Login string string
  | SendMessage message
  | Quit
  | Closed
  | LogError log_record
  | LogInfo log_record

text \<open>
  The state the script changes: what it did to the outside (the SMTP steps and the log
  lines, oldest first) and how many connections it has asked for.
\<close>

record state =
  events :: "event list"
  attempts :: nat

definition emit :: "event \<Rightarrow> state \<Rightarrow> state" where
  "emit e s = s\<lparr>events := events s @ [e]\<rparr>"

section \<open>\<open>create_email_message\<close>\<close>

text \<open>The loop of lines 67 to 71 over \<open>images.items()\<close>, in the order of the dict.\<close>

fun attach_images :: "host \<Rightarrow> (string \<times> string) list \<Rightarrow> message \<Rightarrow> py_exn + message" where
  "attach_images h [] msg = Inr msg"
| "attach_images h ((image_id, image_path) # rest) msg =
     (case binary_file h image_path of
        Inl e \<Rightarrow> Inl e
      | Inr data \<Rightarrow>
          (case image_subtype h data of
             None \<Rightarrow> Inl (OtherError ''TypeError'' ''Could not guess image MIME subtype'')
           | Some st \<Rightarrow>
               attach_images h rest
                 (attach (MIMEImage data st [(''Content-ID'', ''<'' @ image_id @ ''>'')]) msg)))"

text \<open>The body of the \<open>try\<close> of lines 54 to 71.\<close>

definition fill_and_attach ::
  "host \<Rightarrow> py_dict \<Rightarrow> string \<Rightarrow> (string \<times> string) list \<Rightarrow> message \<Rightarrow> py_exn + message" where
  "fill_and_attach h recipient template_path images msg =
     (case text_file h template_path of
        Inl e \<Rightarrow> Inl e
      | Inr html_content \<Rightarrow>
          (case getitem recipient ''name'' of
             Inl e \<Rightarrow> Inl e
           | Inr name \<Rightarrow>
               (let html1 = replace ''{{name}}'' name html_content in
                case getitem recipient ''role'' of
                  Inl e \<Rightarrow> Inl e
                | Inr role \<Rightarrow>
                    (let html2 = replace ''{{role}}'' role html1 in
                     attach_images h images (attach (MIMEText html2 ''html'') msg)))))"

definition create_email_message ::
  "mailer \<Rightarrow> host \<Rightarrow> py_dict \<Rightarrow> string \<Rightarrow> (string \<times> string) list \<Rightarrow> state
     \<Rightarrow> (py_exn + message) \<times> state" where
  "create_email_message self h recipient template_path images s =
     (let msg0 = \<lparr>subtype = ''related'', headers = [], payload = []\<rparr>;
          msg1 = set_header ''From'' (sender_email self) msg0
      in case getitem recipient ''email'' of
           Inl e \<Rightarrow> (Inl e, s)
         | Inr email \<Rightarrow>
             (let msg2 = set_header ''To'' email msg1 in
              case getitem recipient ''name'' of
                Inl e \<Rightarrow> (Inl e, s)
              | Inr name \<Rightarrow>
                  (let msg3 = set_header ''Subject''
                                (''Welcome '' @ name @ '' to Tinkering Lab!'') msg2
                   in case fill_and_attach h recipient template_path images msg3 of
                        Inl e \<Rightarrow>
                          (if is_FileNotFoundError e
                           then (Inl e, emit (LogError (TemplateNotFound template_path)) s)
                           else (Inl e, emit (LogError (CreateError e)) s))
                      | Inr msg \<Rightarrow> (Inr msg, s))))"

section \<open>\<open>send_email\<close>\<close>

text \<open>The three calls inside the \<open>with\<close> block; the first that raises ends the block.\<close>

definition session_body :: "mailer \<Rightarrow> session \<Rightarrow> message \<Rightarrow> state \<Rightarrow> (py_exn + unit) \<times> state" where
  "session_body self sc msg s =
     (let s1 = emit (StartTLS (ssl_ctx self)) s in
      case starttls_err sc of
        Some e \<Rightarrow> (Inl e, s1)
      | None \<Rightarrow>
          (let s2 = emit (Login (sender_email self) (sender_password self)) s1 in
           case login_err sc of
             Some e \<Rightarrow> (Inl e, s2)
           | None \<Rightarrow>
               (let s3 = emit (SendMessage msg) s2 in
                case send_err sc of
                  Some e \<Rightarrow> (Inl e, s3)
                | None \<Rightarrow> (Inr (), s3))))"

text \<open>
  \<open>with smtplib.SMTP(server, port) as server: ...\<close>.  When the constructor raises
  there is no connection and the block is skipped.  Otherwise the block runs, and
  \<open>__exit__\<close> runs however the block ended: it sends QUIT and closes the connection,
  and an exception of its own replaces the one of the block.
\<close>

definition smtp_session :: "mailer \<Rightarrow> host \<Rightarrow> message \<Rightarrow> state \<Rightarrow> (py_exn + unit) \<times> state" where
  "smtp_session self h msg s =
     (let sc = smtp h (attempts s);
          s0 = s\<lparr>attempts := Suc (attempts s)\<rparr>
      in case connect_err sc of
           Some e \<Rightarrow> (Inl e, emit (ConnectFailed (smtp_server self) (smtp_port self)) s0)
         | None \<Rightarrow>
             (let s1 = emit (Connected (smtp_server self) (smtp_port self)) s0;
                  (r, s2) = session_body self sc msg s1;
                  s3 = emit Closed (emit Quit s2)
              in case quit_err sc of
                   Some e \<Rightarrow> (Inl e, s3)
                 | None \<Rightarrow> (r, s3)))"

text \<open>The \<open>try\<close> of lines 95 to 103.\<close>

definition try_send :: "mailer \<Rightarrow> host \<Rightarrow> py_dict \<Rightarrow> string \<Rightarrow> (string \<times> string) list \<Rightarrow> state
     \<Rightarrow> (py_exn + bool) \<times> state" where
  "try_send self h recipient template_path images s =
     (case create_email_message self h recipient template_path images s of
        (Inl e, s1) \<Rightarrow> (Inl e, s1)
      | (Inr msg, s1) \<Rightarrow>
          (case smtp_session self h msg s1 of
             (Inl e, s2) \<Rightarrow> (Inl e, s2)
           | (Inr u, s2) \<Rightarrow>
               (case getitem recipient ''email'' of
                  Inl e \<Rightarrow> (Inl e, s2)
                | Inr email \<Rightarrow> (Inr True, emit (LogInfo (SentOk email)) s2))))"

text \<open>
  \<open>send_email\<close>: the \<open>try\<close> and its \<open>except Exception\<close> handler.  The handler formats
  \<open>recipient['email']\<close> into the log line before it returns False, and a KeyError of
  that lookup leaves the function.
\<close>

definition send_email :: "mailer \<Rightarrow> host \<Rightarrow> py_dict \<Rightarrow> string \<Rightarrow> (string \<times> string) list \<Rightarrow> state
     \<Rightarrow> (py_exn + bool) \<times> state" where
  "send_email self h recipient template_path images s =
     (case try_send self h recipient template_path images s of
        (Inr b, s1) \<Rightarrow> (Inr b, s1)
      | (Inl e, s1) \<Rightarrow>
          (case getitem recipient ''email'' of
             Inl e' \<Rightarrow> (Inl e', s1)
           | Inr email \<Rightarrow> (Inr False, emit (LogError (SendFailed email e)) s1)))"

section \<open>\<open>send_bulk_emails\<close>\<close>

record results =
  success :: "string list"
  failed :: "string list"

text \<open>The loop of lines 126 to 130; an exception leaving \<open>send_email\<close> ends it.\<close>

fun bulk_loop :: "mailer \<Rightarrow> host \<Rightarrow> py_dict list \<Rightarrow> string \<Rightarrow> (string \<times> string) list
     \<Rightarrow> results \<Rightarrow> state \<Rightarrow> (py_exn + results) \<times> state" where
  "bulk_loop self h [] template_path images res s = (Inr res, s)"
| "bulk_loop self h (recipient # rest) template_path images res s =
     (case send_email self h recipient template_path images s of
        (Inl e, s1) \<Rightarrow> (Inl e, s1)
      | (Inr ok, s1) \<Rightarrow>
          (case getitem recipient ''email'' of
             Inl e \<Rightarrow> (Inl e, s1)
           | Inr email \<Rightarrow>
               bulk_loop self h rest template_path images
                 (if ok then res\<lparr>success := success res @ [email]\<rparr>
                  else res\<lparr>failed := failed res @ [email]\<rparr>) s1))"

definition send_bulk_emails :: "mailer \<Rightarrow> host \<Rightarrow> py_dict list \<Rightarrow> string \<Rightarrow> (string \<times> string) list
     \<Rightarrow> state \<Rightarrow> (py_exn + results) \<times> state" where
  "send_bulk_emails self h recipients template_path images s =
     bulk_loop self h recipients template_path images \<lparr>success = [], failed = []\<rparr> s"

section \<open>Vocabulary of the properties\<close>

subsection \<open>Templates\<close>

text \<open>A pattern is unbordered when none of its proper suffixes is a prefix of it.\<close>

definition unbordered :: "'a list \<Rightarrow> bool" where
  "unbordered p = list_all (\<lambda>k. take k p \<noteq> drop (length p - k) p) [1..<length p]"

text \<open>
  A template seen as its author writes it: pieces of text without any placeholder,
  each followed by a placeholder token, and a last piece of text.
\<close>

datatype placeholder = NamePh | RolePh

fun token :: "placeholder \<Rightarrow> string" where
  "token NamePh = ''{{name}}''"
| "token RolePh = ''{{role}}''"

fun template_text :: "(string \<times> placeholder) list \<Rightarrow> string \<Rightarrow> string" where
  "template_text [] rest = rest"
| "template_text ((lit, ph) # segs) rest = lit @ token ph @ template_text segs rest"

fun ph_value :: "string \<Rightarrow> string \<Rightarrow> placeholder \<Rightarrow> string" where
  "ph_value name role NamePh = name"
| "ph_value name role RolePh = role"

text \<open>The same pieces of text, with each token replaced by its value.\<close>

fun filled_text :: "string \<Rightarrow> string \<Rightarrow> (string \<times> placeholder) list \<Rightarrow> string \<Rightarrow> string" where
  "filled_text name role [] rest = rest"
| "filled_text name role ((lit, ph) # segs) rest =
     lit @ ph_value name role ph @ filled_text name role segs rest"

definition plain :: "string \<Rightarrow> bool" where
  "plain s = (\<not> sublist ''{{name}}'' s \<and> \<not> sublist ''{{role}}'' s)"

subsection \<open>Reading a message\<close>

fun part_html :: "part \<Rightarrow> string list" where
  "part_html (MIMEText t st) = (if st = ''html'' then [t] else [])"
| "part_html (MIMEImage d st hs) = []"

text \<open>The texts of the HTML parts of a message, in order.\<close>

definition html_texts :: "message \<Rightarrow> string list" where
  "html_texts msg = concat (map part_html (payload msg))"

fun part_content_ids :: "part \<Rightarrow> string list list" where
  "part_content_ids (MIMEText t st) = []"
| "part_content_ids (MIMEImage d st hs) = [map snd (filter (\<lambda>kv. fst kv = ''Content-ID'') hs)]"

text \<open>For each image part of a message, in order, the values of its Content-ID headers.\<close>

definition image_content_ids :: "message \<Rightarrow> string list list" where
  "image_content_ids msg = concat (map part_content_ids (payload msg))"

text \<open>
  The content identifier a Content-ID header carries: the text between the angle
  brackets of its value, which is what a \<open>cid:\<close> reference in the HTML names.
\<close>

definition content_id :: "string \<Rightarrow> string option" where
  "content_id v =
     (case v of
        [] \<Rightarrow> None
      | c # rest \<Rightarrow>
          (if c = CHR ''<'' \<and> rest \<noteq> [] \<and> last rest = CHR ''>'' then Some (butlast rest)
           else None))"

text \<open>For each image part of a message, in order, the content identifiers it carries.\<close>

definition image_cids :: "message \<Rightarrow> string option list list" where
  "image_cids msg = map (map content_id) (image_content_ids msg)"

text \<open>\<open>msg[k]\<close>: the value of the first header named \<open>k\<close>.\<close>

definition get_header :: "message \<Rightarrow> string \<Rightarrow> string option" where
  "get_header msg k = map_of (headers msg) k"

text \<open>
  The part lines 68 to 70 build for one entry of the image map, when its file can be
  read and its data is recognised as an image.
\<close>

definition image_part :: "host \<Rightarrow> string \<times> string \<Rightarrow> part" where
  "image_part h kv =
     (let d = projr (binary_file h (snd kv))
      in MIMEImage d (the (image_subtype h d)) [(''Content-ID'', ''<'' @ fst kv @ ''>'')])"

subsection \<open>Sessions and traces\<close>

text \<open>A session in which every step, from the connection to the closing QUIT, succeeds.\<close>

definition session_ok :: "session \<Rightarrow> bool" where
  "session_ok sc = (connect_err sc = None \<and> starttls_err sc = None \<and> login_err sc = None \<and>
                    send_err sc = None \<and> quit_err sc = None)"

text \<open>
  The last thing \<open>send_email\<close> does for a recipient is to log the address with the
  outcome: \<open>outcomes\<close> reads these records off a trace, oldest first.
\<close>

fun outcome_of :: "event \<Rightarrow> (string \<times> bool) list" where
  "outcome_of (LogInfo (SentOk email)) = [(email, True)]"
| "outcome_of (LogError (SendFailed email e)) = [(email, False)]"
| "outcome_of e = []"

definition outcomes :: "event list \<Rightarrow> (string \<times> bool) list" where
  "outcomes evs = concat (map outcome_of evs)"

text \<open>
  \<open>track opn evs\<close> follows the connection through a trace, starting with a connection
  open or not: \<open>Some opn'\<close> tells whether one is open at the end, and \<open>None\<close> that the
  trace opens a connection while one is open, closes one that is not open, or talks
  SMTP without a connection.
\<close>

fun track :: "bool \<Rightarrow> event list \<Rightarrow> bool option" where
  "track opn [] = Some opn"
| "track opn (Connected a p # es) = (if opn then None else track True es)"
| "track opn (Closed # es) = (if opn then track False es else None)"
| "track opn (ConnectFailed a p # es) = (if opn then None else track opn es)"
| "track opn (LogError r # es) = track opn es"
| "track opn (LogInfo r # es) = track opn es"
| "track opn (e # es) = (if opn then track opn es else None)"

text \<open>What was added to the trace between two states.\<close>

definition new_events :: "state \<Rightarrow> state \<Rightarrow> event list" where
  "new_events s s' = drop (length (events s)) (events s')"

subsection \<open>Faults\<close>




subsection \<open>One send for each recipient\<close>



section \<open>Example inputs\<close>

definition ok_session :: session where
  "ok_session = \<lparr>connect_err = None, starttls_err = None, login_err = None,
                  send_err = None, quit_err = None\<rparr>"



definition login_refused :: session where
  "login_refused = ok_session\<lparr>login_err :=
     Some (OtherError ''SMTPAuthenticationError'' ''535 Username and Password not accepted'')\<rparr>"

text \<open>The eight bytes every PNG file starts with.\<close>

definition png_signature :: string where
  "png_signature = [CHR 0x89, CHR ''P'', CHR ''N'', CHR ''G'', CHR 0x0D, CHR 0x0A, CHR 0x1A,
                    CHR 0x0A]"

text \<open>
  A host with the template \<open>t.html\<close> and the PNG image \<open>a.png\<close>; \<open>locked.png\<close>
  exists and cannot be read, every other path is missing.  Data that starts with the PNG
  signature is recognised as \<open>png\<close>.  The server accepts every session but the
  second, whose login it refuses.
\<close>

definition example_host :: host where
  "example_host =
     \<lparr>text_file = (\<lambda>p. if p = ''t.html'' then Inr ''Hello {{name}}, role: {{role}}''
                         else Inl (FileNotFoundError p)),
      binary_file = (\<lambda>p. if p = ''a.png'' then Inr (png_signature @ ''IHDR'')
                           else if p = ''locked.png''
                           then Inl (OtherError ''PermissionError'' ''locked.png'')
                           else Inl (FileNotFoundError p)),
      image_subtype = (\<lambda>d. if prefix png_signature d then Some ''png'' else None),
      smtp = (\<lambda>n. if n = 1 then login_refused else ok_session)\<rparr>"

definition example_mailer :: mailer where
  "example_mailer = \<lparr>smtp_server = ''smtp.gmail.com'', smtp_port = 587,
     sender_email = ''lab@x.com'', sender_password = ''secret'', ssl_ctx = DefaultContext\<rparr>"

definition ada :: py_dict where
  "ada = [''name'' \<mapsto> ''Ada'', ''role'' \<mapsto> ''Engineer'', ''email'' \<mapsto> ''ada@x.com'']"

definition bob :: py_dict where
  "bob = [''name'' \<mapsto> ''Bob'', ''role'' \<mapsto> ''Mentor'', ''email'' \<mapsto> ''bob@x.com'']"

text \<open>A recipient whose name is the role token and whose role is the name token.\<close>

definition nested :: py_dict where
  "nested = [''name'' \<mapsto> ''{{role}}'', ''role'' \<mapsto> ''{{name}}'', ''email'' \<mapsto> ''n@x.com'']"



definition logo_only :: "(string \<times> string) list" where
  "logo_only = [(''logo'', ''a.png'')]"

definition fresh :: state where
  "fresh = \<lparr>events = [], attempts = 0\<rparr>"

lemmas example_defs =
  example_host_def example_mailer_def ada_def bob_def logo_only_def fresh_def
  ok_session_def login_refused_def png_signature_def

lemmas send_defs = send_email_def try_send_def create_email_message_def smtp_session_def
  session_body_def getitem_def emit_def new_events_def Let_def

lemmas script_defs =
  send_bulk_emails_def send_email_def try_send_def create_email_message_def
  fill_and_attach_def smtp_session_def session_body_def getitem_def emit_def
  attach_def set_header_def

section \<open>\<open>str.replace\<close>\<close>

lemma replace_Cons:
  "old \<noteq> [] \<Longrightarrow> replace old new (c # cs) =
     (if prefix old (c # cs) then new @ replace old new (drop (length old) (c # cs))
      else c # replace old new cs)"
  by (cases old) simp_all

lemma replace_Nil: "old \<noteq> [] \<Longrightarrow> replace old new [] = []"
  by (cases old) simp_all

lemma replace_at_match:
  assumes ne: "old \<noteq> []"
  shows "replace old new (old @ r) = new @ replace old new r"
proof -
  from ne obtain q qs where q: "old = q # qs" by (cases old) auto
  have "replace old new (q # (qs @ r)) =
        new @ replace old new (drop (length old) (q # (qs @ r)))"
    using ne by (subst replace_Cons) (simp_all add: q)
  then show ?thesis by (simp add: q)
qed

text \<open>Text in which the pattern does not occur is returned as it is.\<close>

lemma replace_absent:
  "old \<noteq> [] \<Longrightarrow> \<not> sublist old s \<Longrightarrow> replace old new s = s"
proof (induction s)
  case Nil
  then show ?case by (simp add: replace_Nil)
next
  case (Cons c cs)
  from Cons.prems have "\<not> prefix old (c # cs)" and "\<not> sublist old cs"
    by (auto simp: sublist_Cons_right)
  with Cons show ?case by (simp add: replace_Cons)
qed

text \<open>
  No occurrence of an unbordered pattern starts before a written occurrence of it and
  runs into it.
\<close>

lemma unbordered_no_straddle:
  assumes ub: "unbordered p" and a: "a \<noteq> []" and np: "\<not> prefix p a"
  shows "\<not> prefix p (a @ p @ b)"
proof
  assume pre: "prefix p (a @ p @ b)"
  have la: "length a < length p"
  proof (rule ccontr)
    assume "\<not> length a < length p"
    then have "length p \<le> length a" by simp
    with pre have "prefix p a" by (auto simp: prefix_append dest: prefix_length_le)
    with np show False by simp
  qed
  from pre obtain z where z: "a @ p @ b = p @ z" by (auto simp: prefix_def)
  let ?n = "length a" let ?k = "length p - length a"
  from z have "take (length p) (a @ p @ b) = p" by simp
  with la have eq: "a @ take ?k p = p" by simp
  then have "drop ?n (a @ take ?k p) = drop ?n p" by simp
  then have "take ?k p = drop (length p - ?k) p" using la by simp
  moreover have "?k \<in> set [1..<length p]" using la a by (cases a) auto
  ultimately show False using ub by (auto simp: unbordered_def list_all_iff)
qed

lemma replace_split:
  assumes ub: "unbordered p" and ne: "p \<noteq> []"
  shows "replace p new (a @ p @ b) = replace p new a @ new @ replace p new b"
proof (induction a rule: length_induct)
  case (1 a)
  show ?case
  proof (cases a)
    case Nil
    then show ?thesis using ne by (simp add: replace_at_match replace_Nil)
  next
    case (Cons c cs)
    show ?thesis
    proof (cases "prefix p a")
      case True
      then obtain r where r: "a = p @ r" by (auto simp: prefix_def)
      with ne have "length r < length a" by simp
      with 1 have ih: "replace p new (r @ p @ b) = replace p new r @ new @ replace p new b"
        by simp
      have "replace p new (a @ p @ b) = new @ replace p new (r @ p @ b)"
        using ne r replace_at_match [of p new "r @ p @ b"] by simp
      moreover have "replace p new a = new @ replace p new r"
        using ne r by (simp add: replace_at_match)
      ultimately show ?thesis using ih by simp
    next
      case False
      with ub Cons have "\<not> prefix p (a @ p @ b)"
        by (intro unbordered_no_straddle) auto
      moreover have "length cs < length a" using Cons by simp
      with 1 have "replace p new (cs @ p @ b) = replace p new cs @ new @ replace p new b"
        by simp
      ultimately show ?thesis using False Cons ne by (simp add: replace_Cons)
    qed
  qed
qed

text \<open>A character that is not in the pattern cuts the text in two independent halves.\<close>

lemma replace_foreign_char:
  assumes "c \<notin> set p" and ne: "p \<noteq> []"
  shows "replace p new (x @ c # y) = replace p new x @ c # replace p new y"
proof (induction x rule: length_induct)
  case (1 x)
  show ?case
  proof (cases x)
    case Nil
    have "\<not> prefix p (c # y)" using assms by (cases p) auto
    then show ?thesis using Nil ne by (simp add: replace_Cons replace_Nil)
  next
    case (Cons d ds)
    show ?thesis
    proof (cases "prefix p x")
      case True
      then obtain r where r: "x = p @ r" by (auto simp: prefix_def)
      with ne have "length r < length x" by simp
      with 1 have ih: "replace p new (r @ c # y) = replace p new r @ c # replace p new y"
        by simp
      have "replace p new (x @ c # y) = new @ replace p new (r @ c # y)"
        using ne r replace_at_match [of p new "r @ c # y"] by simp
      moreover have "replace p new x = new @ replace p new r"
        using ne r by (simp add: replace_at_match)
      ultimately show ?thesis using ih by simp
    next
      case False
      have "\<not> prefix p (x @ c # y)"
      proof
        assume "prefix p (x @ c # y)"
        with False obtain us where "p = x @ us" "us \<noteq> []" "prefix us (c # y)"
          by (auto simp: prefix_append)
        then show False using assms by (cases us) auto
      qed
      moreover have "length ds < length x" using Cons by simp
      with 1 have "replace p new (ds @ c # y) = replace p new ds @ c # replace p new y"
        by simp
      ultimately show ?thesis using False Cons ne by (simp add: replace_Cons)
    qed
  qed
qed

lemma replace_other_head:
  "p \<noteq> [] \<Longrightarrow> c \<noteq> hd p \<Longrightarrow> replace p new (c # y) = c # replace p new y"
  by (cases p) (auto simp: replace_Cons)

lemma replace_other_last:
  assumes ne: "p \<noteq> []" and c: "c \<noteq> last p"
  shows "replace p new (x @ [c]) = replace p new x @ [c]"
proof (induction x rule: length_induct)
  case (1 x)
  show ?case
  proof (cases x)
    case Nil
    have "\<not> prefix p [c]" using assms by (cases p) auto
    then show ?thesis using Nil ne by (simp add: replace_Cons replace_Nil)
  next
    case (Cons d ds)
    show ?thesis
    proof (cases "prefix p x")
      case True
      then obtain r where r: "x = p @ r" by (auto simp: prefix_def)
      with ne have "length r < length x" by simp
      with 1 have ih: "replace p new (r @ [c]) = replace p new r @ [c]"
        by simp
      have "replace p new (x @ [c]) = new @ replace p new (r @ [c])"
        using ne r replace_at_match [of p new "r @ [c]"] by simp
      moreover have "replace p new x = new @ replace p new r"
        using ne r by (simp add: replace_at_match)
      ultimately show ?thesis using ih by simp
    next
      case False
      have "\<not> prefix p (x @ [c])"
      proof
        assume "prefix p (x @ [c])"
        with False have "p = x @ [c]" by (auto simp: prefix_snoc)
        with c show False by simp
      qed
      moreover have "length ds < length x" using Cons by simp
      with 1 have "replace p new (ds @ [c]) = replace p new ds @ [c]"
        by simp
      ultimately show ?thesis using False Cons ne by (simp add: replace_Cons)
    qed
  qed
qed

lemma replace_keeps_foreign_prefix:
  "p \<noteq> [] \<Longrightarrow> set w \<inter> set p = {} \<Longrightarrow> replace p new (w @ y) = w @ replace p new y"
proof (induction w)
  case Nil
  then show ?case by simp
next
  case (Cons c w)
  then have "c \<notin> set p" by auto
  with Cons.prems
  have "replace p new ([] @ c # (w @ y)) = replace p new [] @ c # replace p new (w @ y)"
    by (intro replace_foreign_char) auto
  with Cons show ?case by (simp add: replace_Nil)
qed

text \<open>A non-empty word none of whose characters is in the pattern is kept where it is.\<close>

lemma replace_keeps_foreign:
  assumes "p \<noteq> []" and "w \<noteq> []" and "set w \<inter> set p = {}"
  shows "replace p new (x @ w @ y) = replace p new x @ w @ replace p new y"
proof -
  from assms obtain c w' where w: "w = c # w'" by (cases w) auto
  with assms have c: "c \<notin> set p" and w': "set w' \<inter> set p = {}" by auto
  have "replace p new (x @ c # (w' @ y)) = replace p new x @ c # replace p new (w' @ y)"
    using c assms(1) by (rule replace_foreign_char)
  also have "replace p new (w' @ y) = w' @ replace p new y"
    using assms(1) w' by (rule replace_keeps_foreign_prefix)
  finally show ?thesis by (simp add: w)
qed

subsection \<open>The two placeholders\<close>

lemma unbordered_name: "unbordered ''{{name}}''"
  by (simp add: unbordered_def upt_rec)

lemma unbordered_role: "unbordered ''{{role}}''"
  by (simp add: unbordered_def upt_rec)

text \<open>Replacing the name token leaves a written role token where it is.\<close>

lemma replace_name_keeps_role_token:
  "replace ''{{name}}'' new (a @ ''{{role}}'' @ b) =
     replace ''{{name}}'' new a @ ''{{role}}'' @ replace ''{{name}}'' new b"
proof -
  let ?N = "''{{name}}''"
  have "replace ?N new ((a @ ''{{'') @ CHR ''r'' # (''ole}}'' @ b)) =
        replace ?N new (a @ ''{{'') @ CHR ''r'' # replace ?N new (''ole}}'' @ b)"
    by (rule replace_foreign_char) simp_all
  moreover have "replace ?N new ((a @ ''{'') @ ''{'') = replace ?N new (a @ ''{'') @ ''{''"
    by (rule replace_other_last) simp_all
  moreover have "replace ?N new (a @ ''{'') = replace ?N new a @ ''{''"
    by (rule replace_other_last) simp_all
  moreover have "replace ?N new (''ole}}'' @ b) = ''ole}}'' @ replace ?N new b"
    by (simp add: replace_other_head)
  ultimately show ?thesis by simp
qed

lemma fill_plain:
  "plain t \<Longrightarrow> replace ''{{role}}'' role (replace ''{{name}}'' name t) = t"
  by (simp add: plain_def replace_absent)

lemma fill_token:
  assumes "name \<noteq> []" and "set name \<inter> set ''{{role}}'' = {}"
  shows "replace ''{{role}}'' role (replace ''{{name}}'' name (a @ token ph @ b)) =
         replace ''{{role}}'' role (replace ''{{name}}'' name a) @ ph_value name role ph @
         replace ''{{role}}'' role (replace ''{{name}}'' name b)"
proof (cases ph)
  case NamePh
  have "replace ''{{name}}'' name (a @ ''{{name}}'' @ b) =
        replace ''{{name}}'' name a @ name @ replace ''{{name}}'' name b"
    by (rule replace_split) (simp_all add: unbordered_name)
  moreover have
    "replace ''{{role}}'' role
       (replace ''{{name}}'' name a @ name @ replace ''{{name}}'' name b) =
     replace ''{{role}}'' role (replace ''{{name}}'' name a) @ name @
     replace ''{{role}}'' role (replace ''{{name}}'' name b)"
    using assms by (intro replace_keeps_foreign) simp_all
  ultimately show ?thesis using NamePh by simp
next
  case RolePh
  have "replace ''{{role}}'' role
          (replace ''{{name}}'' name a @ ''{{role}}'' @ replace ''{{name}}'' name b) =
        replace ''{{role}}'' role (replace ''{{name}}'' name a) @ role @
        replace ''{{role}}'' role (replace ''{{name}}'' name b)"
    by (rule replace_split) (simp_all add: unbordered_role)
  then show ?thesis
    unfolding RolePh token.simps ph_value.simps replace_name_keeps_role_token .
qed

text \<open>
  For a name that is not empty and has none of the characters of the role token, the
  two replacements of lines 59 and 60 turn every token of the template into its value
  and keep the text between the tokens.
\<close>

lemma fill_segments:
  assumes "name \<noteq> []" and "set name \<inter> set ''{{role}}'' = {}"
  shows "list_all plain (map fst segs) \<Longrightarrow> plain rest \<Longrightarrow>
         replace ''{{role}}'' role (replace ''{{name}}'' name (template_text segs rest)) =
         filled_text name role segs rest"
proof (induction segs)
  case Nil
  then show ?case by (simp add: fill_plain)
next
  case (Cons seg segs)
  obtain lit ph where seg: "seg = (lit, ph)" by (cases seg)
  with Cons show ?case
    by (simp add: fill_token [OF assms] fill_plain)
qed

text \<open>
  Every template can be written in this way: cut it at the first token, and go on with
  what follows the token.
\<close>

lemma first_token:
  assumes "\<not> plain t"
  shows "\<exists>a ph b. t = a @ token ph @ b \<and> plain a"
proof -
  define P where "P n \<longleftrightarrow> (\<exists>a ph b. t = a @ token ph @ b \<and> length a = n)" for n
  from assms have "sublist (token NamePh) t \<or> sublist (token RolePh) t"
    by (simp add: plain_def)
  then have "\<exists>n. P n" unfolding P_def sublist_def by blast
  then obtain n where n: "P n" and least: "\<And>m. m < n \<Longrightarrow> \<not> P m"
    using exists_least_iff [of P] by blast
  from n obtain a ph b where t: "t = a @ token ph @ b" and la: "length a = n"
    unfolding P_def by blast
  have "plain a"
  proof (rule ccontr)
    assume "\<not> plain a"
    then have "sublist (token NamePh) a \<or> sublist (token RolePh) a"
      by (simp add: plain_def)
    then obtain a' ph' a'' where a: "a = a' @ token ph' @ a''"
      unfolding sublist_def by blast
    then have "t = a' @ token ph' @ (a'' @ token ph @ b)" using t by simp
    then have "P (length a')" unfolding P_def by blast
    moreover have "length a' < n" using a la by (cases ph') auto
    ultimately show False using least by blast
  qed
  with t show ?thesis by blast
qed

lemma template_decomposition:
  "\<exists>segs rest. t = template_text segs rest \<and> list_all plain (map fst segs) \<and> plain rest"
proof (induction t rule: length_induct)
  case (1 t)
  show ?case
  proof (cases "plain t")
    case True
    then have "t = template_text [] t \<and> list_all plain (map fst []) \<and> plain t" by simp
    then show ?thesis by blast
  next
    case False
    then obtain a ph b where t: "t = a @ token ph @ b" and a: "plain a"
      using first_token by blast
    then have "length b < length t" by (cases ph) auto
    with 1 obtain segs rest where
      b: "b = template_text segs rest" "list_all plain (map fst segs)" "plain rest"
      by blast
    with t a have "t = template_text ((a, ph) # segs) rest
        \<and> list_all plain (map fst ((a, ph) # segs)) \<and> plain rest" by simp
    then show ?thesis by blast
  qed
qed

section \<open>The message \<open>create_email_message\<close> returns\<close>

lemma attach_images_Inr:
  "attach_images h images msg = Inr msg' \<Longrightarrow>
     msg' = msg\<lparr>payload := payload msg @ map (image_part h) images\<rparr>"
proof (induction h images msg rule: attach_images.induct)
  case (1 h msg)
  then show ?case by simp
next
  case (2 h image_id image_path rest msg)
  from "2.prems" obtain d st where d: "binary_file h image_path = Inr d"
    and st: "image_subtype h d = Some st"
    and rec: "attach_images h rest
       (attach (MIMEImage d st [(''Content-ID'', ''<'' @ image_id @ ''>'')]) msg) = Inr msg'"
    by (auto split: sum.splits option.splits)
  from "2.IH" [OF d st rec] show ?case
    by (simp add: attach_def image_part_def d st)
qed

text \<open>
  When a message is returned, the recipient had the three keys, the template was read,
  and the message is the three headers, the personalised HTML part and one image part
  for each entry of the image map.
\<close>

lemma create_Inr:
  assumes "fst (create_email_message self h recipient template_path images s) = Inr msg"
  shows "\<exists>email name role tpl.
           recipient ''email'' = Some email \<and> recipient ''name'' = Some name \<and>
           recipient ''role'' = Some role \<and> text_file h template_path = Inr tpl \<and>
           msg = \<lparr>subtype = ''related'',
                  headers = [(''From'', sender_email self), (''To'', email),
                             (''Subject'', ''Welcome '' @ name @ '' to Tinkering Lab!'')],
                  payload =
                    MIMEText (replace ''{{role}}'' role (replace ''{{name}}'' name tpl)) ''html''
                    # map (image_part h) images\<rparr>"
  using assms
  by (auto simp: create_email_message_def fill_and_attach_def getitem_def set_header_def
        attach_def Let_def
      split: option.splits sum.splits if_splits dest!: attach_images_Inr)

lemma html_texts_built:
  "html_texts \<lparr>subtype = st, headers = hs,
               payload = MIMEText t ''html'' # map (image_part h) images\<rparr> = [t]"
  by (induction images) (simp_all add: html_texts_def image_part_def Let_def)

section \<open>Personalisation of the template\<close>

text \<open>
  C1.  For a recipient whose name is \<open>Ada\<close> and whose role is \<open>Engineer\<close>, the message
  that \<open>create_email_message\<close> returns has one HTML part.  The template can be
  written as pieces of placeholder-free text separated by the tokens \<open>{{name}}\<close> and
  \<open>{{role}}\<close>, and however it is written so, the HTML part is the same pieces with
  \<open>Ada\<close> in place of every \<open>{{name}}\<close> and \<open>Engineer\<close> in place of every
  \<open>{{role}}\<close>.  A template without any placeholder
  is the HTML part as it is, and the template \<open>Hello {{name}}, role: {{role}}\<close> gives
  \<open>Hello Ada, role: Engineer\<close>.
\<close>

theorem C1_personalised_html:
  assumes "recipient ''name'' = Some ''Ada''" and "recipient ''role'' = Some ''Engineer''"
    and "text_file h template_path = Inr tpl"
    and "fst (create_email_message self h recipient template_path images s) = Inr msg"
  shows "(\<forall>segs rest.
            tpl = template_text segs rest \<and> list_all plain (map fst segs) \<and> plain rest
            \<longrightarrow> html_texts msg = [filled_text ''Ada'' ''Engineer'' segs rest])
       \<and> (\<exists>segs rest.
            tpl = template_text segs rest \<and> list_all plain (map fst segs) \<and> plain rest
            \<and> html_texts msg = [filled_text ''Ada'' ''Engineer'' segs rest])
       \<and> (plain tpl \<longrightarrow> html_texts msg = [tpl])
       \<and> (tpl = ''Hello {{name}}, role: {{role}}''
            \<longrightarrow> html_texts msg = [''Hello Ada, role: Engineer''])"
proof -
  from create_Inr [OF assms(4)] assms(1-3)
  have html:
    "html_texts msg = [replace ''{{role}}'' ''Engineer'' (replace ''{{name}}'' ''Ada'' tpl)]"
    by (auto simp: html_texts_built)
  have segs: "html_texts msg = [filled_text ''Ada'' ''Engineer'' segs rest]"
    if "tpl = template_text segs rest" "list_all plain (map fst segs)" "plain rest"
    for segs rest
    using that html fill_segments [of "''Ada''" segs rest "''Engineer''"] by simp
  have some: "\<exists>segs rest.
      tpl = template_text segs rest \<and> list_all plain (map fst segs) \<and> plain rest
      \<and> html_texts msg = [filled_text ''Ada'' ''Engineer'' segs rest]"
    using template_decomposition [of tpl] segs by blast
  have none: "html_texts msg = [tpl]" if "plain tpl"
    using that html by (simp add: fill_plain)
  have ex: "html_texts msg = [''Hello Ada, role: Engineer'']"
    if "tpl = ''Hello {{name}}, role: {{role}}''"
    using that html by simp
  from segs some none ex show ?thesis by blast
qed

theorem C1_personalised_html_witness:
  "ada ''name'' = Some ''Ada'' \<and> ada ''role'' = Some ''Engineer''
   \<and> text_file example_host ''t.html''
       = Inr (template_text [(''Hello '', NamePh), ('', role: '', RolePh)] [])
   \<and> list_all plain (map fst [(''Hello '', NamePh), ('', role: '', RolePh)]) \<and> plain []
   \<and> html_texts (projr (fst (create_email_message example_mailer example_host ada
         ''t.html'' logo_only fresh)))
       = [''Hello Ada, role: Engineer'']"
proof -
  let ?r = "fst (create_email_message example_mailer example_host ada ''t.html''
                   logo_only fresh)"
  have h1: "ada ''name'' = Some ''Ada''" and h2: "ada ''role'' = Some ''Engineer''"
    by (simp_all add: ada_def)
  have h3: "text_file example_host ''t.html''
              = Inr (template_text [(''Hello '', NamePh), ('', role: '', RolePh)] [])"
    by (simp add: example_host_def)
  have h4: "?r = Inr (projr ?r)"
    by (simp add: script_defs example_defs)
  have p: "list_all plain (map fst [(''Hello '', NamePh), ('', role: '', RolePh)])" "plain []"
    by (simp_all add: plain_def sublist_Cons_right)
  from C1_personalised_html [OF h1 h2 h3 h4] p h1 h2 h3 show ?thesis by simp
qed

section \<open>What \<open>send_email\<close> and \<open>send_bulk_emails\<close> do\<close>

lemma track_append:
  "track opn (a @ b) = (case track opn a of None \<Rightarrow> None | Some o' \<Rightarrow> track o' b)"
  by (induction opn a rule: track.induct) auto

lemma outcomes_append: "outcomes (a @ b) = outcomes a @ outcomes b"
  by (simp add: outcomes_def)


lemma send_email_track:
  "track False (new_events s (snd (send_email self h recipient tp images s))) = Some False"
  by (auto simp: send_defs split: sum.splits option.splits prod.splits if_splits)

lemma send_email_grows:
  "events (snd (send_email self h recipient tp images s)) =
     events s @ new_events s (snd (send_email self h recipient tp images s))"
  by (auto simp: send_defs split: sum.splits option.splits prod.splits if_splits)

lemma send_email_attempts:
  "attempts (snd (send_email self h recipient tp images s)) =
     attempts s + (if isl (fst (create_email_message self h recipient tp images s)) then 0 else 1)"
  by (auto simp: send_defs split: sum.splits option.splits prod.splits if_splits)

lemma send_email_result:
  assumes "recipient ''email'' = Some email"
  shows "fst (send_email self h recipient tp images s) =
           Inr (\<not> isl (fst (create_email_message self h recipient tp images s))
                \<and> session_ok (smtp h (attempts s)))"
  using assms
  by (auto simp: send_defs session_ok_def split: sum.splits option.splits prod.splits if_splits)

lemma send_email_outcome:
  assumes "recipient ''email'' = Some email"
  shows "outcomes (new_events s (snd (send_email self h recipient tp images s))) =
           [(email, projr (fst (send_email self h recipient tp images s)))]"
  using assms
  by (auto simp: send_defs outcomes_def split: sum.splits option.splits prod.splits if_splits)


lemma new_events_trans:
  assumes "events s1 = events s @ new_events s s1" and "events s2 = events s1 @ new_events s1 s2"
  shows "new_events s s2 = new_events s s1 @ new_events s1 s2"
    and "events s2 = events s @ new_events s s2"
proof -
  from assms have "events s2 = events s @ (new_events s s1 @ new_events s1 s2)" by simp
  then show "new_events s s2 = new_events s s1 @ new_events s1 s2"
    by (simp add: new_events_def [of s s2])
  with assms show "events s2 = events s @ new_events s s2" by simp
qed

lemma new_events_same: "new_events s s = []"
  by (simp add: new_events_def)

lemma bulk_loop_grows_track:
  "events (snd (bulk_loop self h rs tp images res s)) =
      events s @ new_events s (snd (bulk_loop self h rs tp images res s))
   \<and> track False (new_events s (snd (bulk_loop self h rs tp images res s))) = Some False"
proof (induction rs arbitrary: res s)
  case Nil
  show ?case by (simp add: new_events_same)
next
  case (Cons r rs)
  obtain x s1 where e: "send_email self h r tp images s = (x, s1)"
    by (cases "send_email self h r tp images s")
  have g1: "events s1 = events s @ new_events s s1"
    using send_email_grows [where s = s and recipient = r and self = self and h = h
        and tp = tp and images = images] e by simp
  have t1: "track False (new_events s s1) = Some False"
    using send_email_track [where s = s and recipient = r and self = self and h = h
        and tp = tp and images = images] e by simp
  show ?case
  proof (cases x)
    case (Inl err)
    with e g1 t1 show ?thesis by simp
  next
    case (Inr ok)
    show ?thesis
    proof (cases "r ''email''")
      case None
      with e Inr g1 t1 show ?thesis by (simp add: getitem_def)
    next
      case (Some email)
      let ?res' = "if ok then res\<lparr>success := success res @ [email]\<rparr>
                   else res\<lparr>failed := failed res @ [email]\<rparr>"
      let ?b = "bulk_loop self h rs tp images ?res' s1"
      have b: "bulk_loop self h (r # rs) tp images res s = ?b"
        using e Inr Some by (simp add: getitem_def)
      from Cons.IH
      have g2: "events (snd ?b) = events s1 @ new_events s1 (snd ?b)"
        and t2: "track False (new_events s1 (snd ?b)) = Some False" by simp_all
      from new_events_trans [OF g1 g2] t1 t2 show ?thesis
        unfolding b by (simp add: track_append)
    qed
  qed
qed

lemma bulk_loop_result:
  assumes "list_all (\<lambda>r. r ''email'' \<noteq> None) rs"
  shows "map fst (outcomes (new_events s (snd (bulk_loop self h rs tp images res s)))) =
           map (\<lambda>r. the (r ''email'')) rs
       \<and> fst (bulk_loop self h rs tp images res s) =
           Inr \<lparr>success = success res @ map fst (filter snd
                   (outcomes (new_events s (snd (bulk_loop self h rs tp images res s))))),
                failed = failed res @ map fst (filter (\<lambda>x. \<not> snd x)
                   (outcomes (new_events s (snd (bulk_loop self h rs tp images res s)))))\<rparr>"
  using assms
proof (induction rs arbitrary: res s)
  case Nil
  show ?case by (simp add: new_events_same outcomes_def)
next
  case (Cons r rs)
  then obtain email where em: "r ''email'' = Some email" by auto
  obtain x s1 where e: "send_email self h r tp images s = (x, s1)"
    by (cases "send_email self h r tp images s")
  have g1: "events s1 = events s @ new_events s s1"
    using send_email_grows [where s = s and recipient = r and self = self and h = h
        and tp = tp and images = images] e by simp
  obtain ok where ok: "x = Inr ok"
    using send_email_result [where s = s and recipient = r and self = self and h = h
        and tp = tp and images = images, OF em] e by simp
  have o1: "outcomes (new_events s s1) = [(email, ok)]"
    using send_email_outcome [where s = s and recipient = r and self = self and h = h
        and tp = tp and images = images, OF em] e ok by simp
  let ?res' = "if ok then res\<lparr>success := success res @ [email]\<rparr>
               else res\<lparr>failed := failed res @ [email]\<rparr>"
  let ?b = "bulk_loop self h rs tp images ?res' s1"
  have b: "bulk_loop self h (r # rs) tp images res s = ?b"
    using e ok em by (simp add: getitem_def)
  have g2: "events (snd ?b) = events s1 @ new_events s1 (snd ?b)"
    using bulk_loop_grows_track by simp
  have n: "new_events s (snd ?b) = new_events s s1 @ new_events s1 (snd ?b)"
    by (rule new_events_trans(1) [OF g1 g2])
  from Cons.prems have "list_all (\<lambda>r. r ''email'' \<noteq> None) rs" by simp
  from Cons.IH [OF this]
  show ?case unfolding b n by (cases ok) (simp_all add: outcomes_append o1 em)
qed


lemma bulk_loop_attempts:
  "attempts s \<le> attempts (snd (bulk_loop self h rs tp images res s)) \<and>
   attempts (snd (bulk_loop self h rs tp images res s)) \<le> attempts s + length rs"
proof (induction rs arbitrary: res s)
  case Nil
  show ?case by simp
next
  case (Cons r rs)
  obtain x s1 where e: "send_email self h r tp images s = (x, s1)"
    by (cases "send_email self h r tp images s")
  have a1: "attempts s \<le> attempts s1 \<and> attempts s1 \<le> attempts s + 1"
    using send_email_attempts [where s = s and recipient = r and self = self and h = h
        and tp = tp and images = images] e by simp
  show ?case
  proof (cases x)
    case (Inl err)
    with e a1 show ?thesis by simp
  next
    case (Inr ok)
    show ?thesis
    proof (cases "r ''email''")
      case None
      with e Inr a1 show ?thesis by (simp add: getitem_def)
    next
      case (Some email)
      let ?res' = "if ok then res\<lparr>success := success res @ [email]\<rparr>
                   else res\<lparr>failed := failed res @ [email]\<rparr>"
      have b: "bulk_loop self h (r # rs) tp images res s = bulk_loop self h rs tp images ?res' s1"
        using e Inr Some by (simp add: getitem_def)
      from Cons.IH [where res = ?res' and s = s1] a1 show ?thesis unfolding b by simp
    qed
  qed
qed



text \<open>
  The one exception that leaves \<open>send_email\<close>: for a dictionary without the key
  \<open>email\<close>, the handler's own log line raises the KeyError again.
\<close>

lemma send_email_without_email_key:
  "recipient ''email'' = None \<Longrightarrow>
     send_email self h recipient tp images s = (Inl (KeyError ''email''), s)"
  by (simp add: send_email_def try_send_def create_email_message_def getitem_def Let_def)

section \<open>Errors stay inside \<open>send_email\<close>\<close>




section \<open>The two lists of \<open>send_bulk_emails\<close>\<close>

text \<open>
  C2, as stated, fails when an address is listed twice: here the same recipient is
  given twice, the first session succeeds and the login of the second is refused, and
  the address is in both lists.
\<close>

theorem C2_counterexample:
  "fst (send_bulk_emails example_mailer example_host [ada, ada] ''t.html'' logo_only fresh) =
     Inr \<lparr>success = [''ada@x.com''], failed = [''ada@x.com'']\<rparr>
   \<and> set (success (projr (fst (send_bulk_emails example_mailer example_host [ada, ada]
             ''t.html'' logo_only fresh))))
     \<inter> set (failed (projr (fst (send_bulk_emails example_mailer example_host [ada, ada]
             ''t.html'' logo_only fresh)))) \<noteq> {}"
proof -
  have "fst (send_bulk_emails example_mailer example_host [ada, ada] ''t.html'' logo_only fresh) =
     Inr \<lparr>success = [''ada@x.com''], failed = [''ada@x.com'']\<rparr>"
    by (simp add: script_defs example_defs)
  then show ?thesis by simp
qed

text \<open>
  C2, amended.  For recipients that all have an \<open>email\<close> key, \<open>send_bulk_emails\<close>
  returns its two lists; the trace holds one outcome record for each recipient, in the
  order of the recipients; \<open>success\<close> is the addresses of the records with outcome
  True and \<open>failed\<close> those with outcome False, both in that order.  So the two lengths
  add up to the number of recipients, each recipient's address is appended to exactly
  one list, and when the addresses are pairwise distinct no address is in both.  On the
  empty list both lists are empty and the state is unchanged: nothing is sent.
\<close>

theorem C2_each_recipient_in_one_list:
  assumes "list_all (\<lambda>r. r ''email'' \<noteq> None) recipients"
  shows "map fst (outcomes (new_events s (snd (send_bulk_emails self h recipients tp images s))))
           = map (\<lambda>r. the (r ''email'')) recipients
       \<and> fst (send_bulk_emails self h recipients tp images s) =
           Inr \<lparr>success = map fst (filter snd
                   (outcomes (new_events s (snd (send_bulk_emails self h recipients tp images s))))),
                failed = map fst (filter (\<lambda>x. \<not> snd x)
                   (outcomes (new_events s (snd (send_bulk_emails self h recipients tp images s)))))\<rparr>
       \<and> length (success (projr (fst (send_bulk_emails self h recipients tp images s))))
         + length (failed (projr (fst (send_bulk_emails self h recipients tp images s))))
           = length recipients
       \<and> (distinct (map (\<lambda>r. the (r ''email'')) recipients) \<longrightarrow>
            set (success (projr (fst (send_bulk_emails self h recipients tp images s))))
            \<inter> set (failed (projr (fst (send_bulk_emails self h recipients tp images s)))) = {})
       \<and> (recipients = [] \<longrightarrow>
            send_bulk_emails self h recipients tp images s = (Inr \<lparr>success = [], failed = []\<rparr>, s))"
proof -
  let ?b = "send_bulk_emails self h recipients tp images s"
  let ?outs = "outcomes (new_events s (snd ?b))"
  from bulk_loop_result [OF assms, where s = s and self = self and h = h and tp = tp
      and images = images and res = "\<lparr>success = [], failed = []\<rparr>"]
  have m: "map fst ?outs = map (\<lambda>r. the (r ''email'')) recipients"
    and r: "fst ?b = Inr \<lparr>success = map fst (filter snd ?outs),
                          failed = map fst (filter (\<lambda>x. \<not> snd x) ?outs)\<rparr>"
    by (simp_all add: send_bulk_emails_def)
  have "length (filter snd ?outs) + length (filter (\<lambda>x. \<not> snd x) ?outs) = length ?outs"
    by (rule sum_length_filter_compl)
  moreover have "length ?outs = length recipients"
    using m by (metis length_map)
  ultimately have l: "length (success (projr (fst ?b))) + length (failed (projr (fst ?b)))
      = length recipients" using r by simp
  have d: "set (success (projr (fst ?b))) \<inter> set (failed (projr (fst ?b))) = {}"
    if "distinct (map (\<lambda>r. the (r ''email'')) recipients)"
  proof -
    from that m have dist: "distinct (map fst ?outs)" by simp
    have "set (map fst (filter snd ?outs)) \<inter> set (map fst (filter (\<lambda>x. \<not> snd x) ?outs)) = {}"
    proof (rule ccontr)
      assume "\<not> ?thesis"
      then obtain a where "(a, True) \<in> set ?outs" "(a, False) \<in> set ?outs" by force
      with dist have "True = False" by (rule eq_key_imp_eq_value)
      then show False by simp
    qed
    with r show ?thesis by simp
  qed
  have e: "?b = (Inr \<lparr>success = [], failed = []\<rparr>, s)" if "recipients = []"
    using that by (simp add: send_bulk_emails_def)
  from m r l d e show ?thesis by blast
qed

theorem C2_each_recipient_in_one_list_witness:
  "list_all (\<lambda>r. r ''email'' \<noteq> None) [ada, bob]
   \<and> distinct (map (\<lambda>r. the (r ''email'')) [ada, bob])
   \<and> fst (send_bulk_emails example_mailer example_host [ada, bob] ''t.html'' logo_only fresh)
       = Inr \<lparr>success = [''ada@x.com''], failed = [''bob@x.com'']\<rparr>
   \<and> length (success (projr (fst (send_bulk_emails example_mailer example_host [ada, bob]
         ''t.html'' logo_only fresh))))
     + length (failed (projr (fst (send_bulk_emails example_mailer example_host [ada, bob]
         ''t.html'' logo_only fresh)))) = 2
   \<and> set (success (projr (fst (send_bulk_emails example_mailer example_host [ada, bob]
         ''t.html'' logo_only fresh))))
     \<inter> set (failed (projr (fst (send_bulk_emails example_mailer example_host [ada, bob]
         ''t.html'' logo_only fresh)))) = {}"
proof -
  have h: "list_all (\<lambda>r. r ''email'' \<noteq> None) [ada, bob]"
    by (simp add: ada_def bob_def)
  have d: "distinct (map (\<lambda>r. the (r ''email'')) [ada, bob])"
    by (simp add: ada_def bob_def)
  have r: "fst (send_bulk_emails example_mailer example_host [ada, bob] ''t.html'' logo_only fresh)
       = Inr \<lparr>success = [''ada@x.com''], failed = [''bob@x.com'']\<rparr>"
    by (simp add: script_defs example_defs)
  from C2_each_recipient_in_one_list [OF h, where self = example_mailer and h = example_host
      and tp = "''t.html''" and images = logo_only and s = fresh] d
  have "length (success (projr (fst (send_bulk_emails example_mailer example_host [ada, bob]
         ''t.html'' logo_only fresh))))
     + length (failed (projr (fst (send_bulk_emails example_mailer example_host [ada, bob]
         ''t.html'' logo_only fresh)))) = length [ada, bob]"
   and "set (success (projr (fst (send_bulk_emails example_mailer example_host [ada, bob]
         ''t.html'' logo_only fresh))))
     \<inter> set (failed (projr (fst (send_bulk_emails example_mailer example_host [ada, bob]
         ''t.html'' logo_only fresh)))) = {}"
    by blast+
  with h d r show ?thesis by simp
qed

section \<open>No early termination\<close>






section \<open>Every session is closed\<close>

lemma send_email_connects:
  assumes "\<not> isl (fst (create_email_message self h recipient tp images s))"
    and "connect_err (smtp h (attempts s)) = None"
  shows "Connected (smtp_server self) (smtp_port self)
           \<in> set (new_events s (snd (send_email self h recipient tp images s)))
       \<and> Closed \<in> set (new_events s (snd (send_email self h recipient tp images s)))"
  using assms
  by (auto simp: send_defs split: sum.splits option.splits prod.splits if_splits)

text \<open>
  C8.  In what \<open>send_email\<close> adds to the trace, a connection is opened only when none
  is open, the SMTP steps happen on an open connection, and no connection is open at the
  end, on every path.  When the message is built and the server accepts the connection,
  the connection is opened and closed, whatever STARTTLS, the login, the transmission
  and QUIT do.  The trace of \<open>send_bulk_emails\<close> is scoped in the same way, so the
  connection of one recipient is closed before the next recipient's is opened.
\<close>

theorem C8_sessions_closed:
  "track False (new_events s (snd (send_email self h recipient tp images s))) = Some False
   \<and> (\<not> isl (fst (create_email_message self h recipient tp images s))
      \<and> connect_err (smtp h (attempts s)) = None \<longrightarrow>
        Connected (smtp_server self) (smtp_port self)
           \<in> set (new_events s (snd (send_email self h recipient tp images s)))
      \<and> Closed \<in> set (new_events s (snd (send_email self h recipient tp images s))))
   \<and> track False (new_events s (snd (send_bulk_emails self h recipients tp images s)))
        = Some False"
  using send_email_track [where s = s and self = self and h = h and recipient = recipient
      and tp = tp and images = images]
    send_email_connects [where s = s and self = self and h = h and recipient = recipient
      and tp = tp and images = images]
    bulk_loop_grows_track [where s = s and self = self and h = h and rs = recipients
      and tp = tp and images = images and res = "\<lparr>success = [], failed = []\<rparr>"]
  by (simp add: send_bulk_emails_def)

theorem C8_sessions_closed_witness:
  "\<not> isl (fst (create_email_message example_mailer example_host bob ''t.html'' logo_only
            (fresh\<lparr>attempts := 1\<rparr>)))
   \<and> connect_err (smtp example_host (attempts (fresh\<lparr>attempts := 1\<rparr>))) = None
   \<and> login_err (smtp example_host (attempts (fresh\<lparr>attempts := 1\<rparr>))) \<noteq> None
   \<and> new_events (fresh\<lparr>attempts := 1\<rparr>)
        (snd (send_email example_mailer example_host bob ''t.html'' logo_only
               (fresh\<lparr>attempts := 1\<rparr>)))
       = [Connected ''smtp.gmail.com'' 587, StartTLS DefaultContext,
          Login ''lab@x.com'' ''secret'', Quit, Closed,
          LogError (SendFailed ''bob@x.com''
            (OtherError ''SMTPAuthenticationError'' ''535 Username and Password not accepted''))]
   \<and> track False (new_events (fresh\<lparr>attempts := 1\<rparr>)
        (snd (send_email example_mailer example_host bob ''t.html'' logo_only
               (fresh\<lparr>attempts := 1\<rparr>)))) = Some False
   \<and> Closed \<in> set (new_events (fresh\<lparr>attempts := 1\<rparr>)
        (snd (send_email example_mailer example_host bob ''t.html'' logo_only
               (fresh\<lparr>attempts := 1\<rparr>))))"
proof -
  let ?s = "fresh\<lparr>attempts := 1\<rparr>"
  have b: "\<not> isl (fst (create_email_message example_mailer example_host bob ''t.html'' logo_only ?s))"
    by (simp add: script_defs example_defs)
  have c: "connect_err (smtp example_host (attempts ?s)) = None"
    and l: "login_err (smtp example_host (attempts ?s)) \<noteq> None"
    by (simp_all add: example_defs)
  have n: "new_events ?s (snd (send_email example_mailer example_host bob ''t.html'' logo_only ?s))
       = [Connected ''smtp.gmail.com'' 587, StartTLS DefaultContext,
          Login ''lab@x.com'' ''secret'', Quit, Closed,
          LogError (SendFailed ''bob@x.com''
            (OtherError ''SMTPAuthenticationError'' ''535 Username and Password not accepted''))]"
    by (simp add: script_defs example_defs new_events_def)
  note inst = C8_sessions_closed [where s = ?s and self = example_mailer and h = example_host
      and recipient = bob and tp = "''t.html''" and images = logo_only]
  from inst have t: "track False (new_events ?s
        (snd (send_email example_mailer example_host bob ''t.html'' logo_only ?s))) = Some False"
    by blast
  from inst b c have "Closed \<in> set (new_events ?s
        (snd (send_email example_mailer example_host bob ''t.html'' logo_only ?s)))" by blast
  with b c l n t show ?thesis by blast
qed

section \<open>Headers\<close>

text \<open>
  C10.  Every message \<open>create_email_message\<close> returns carries a From header with the
  configured sender address, a To header with the recipient's email and a Subject header
  \<open>Welcome <name> to Tinkering Lab!\<close>, set in this order and nothing else.  Whatever
  the files, the template path and the image map of another call for the same recipient
  are, the message it returns has the same headers.
\<close>

theorem C10_headers:
  assumes "fst (create_email_message self h recipient tp images s) = Inr msg"
  shows "get_header msg ''From'' = Some (sender_email self)
       \<and> get_header msg ''To'' = recipient ''email''
       \<and> get_header msg ''Subject'' =
           map_option (\<lambda>n. ''Welcome '' @ n @ '' to Tinkering Lab!'') (recipient ''name'')
       \<and> map fst (headers msg) = [''From'', ''To'', ''Subject'']
       \<and> (\<forall>h' tp' images' s' msg'.
             fst (create_email_message self h' recipient tp' images' s') = Inr msg'
             \<longrightarrow> headers msg' = headers msg)"
proof -
  from create_Inr [OF assms] obtain email name where
    e: "recipient ''email'' = Some email" and n: "recipient ''name'' = Some name"
    and hs: "headers msg = [(''From'', sender_email self), (''To'', email),
                            (''Subject'', ''Welcome '' @ name @ '' to Tinkering Lab!'')]"
    by auto
  have ind: "headers msg' = headers msg"
    if "fst (create_email_message self h' recipient tp' images' s') = Inr msg'"
    for h' tp' images' s' msg'
    using create_Inr [OF that] e n hs by auto
  from e n hs ind show ?thesis by (simp add: get_header_def)
qed

theorem C10_headers_witness:
  "fst (create_email_message example_mailer example_host ada ''t.html'' logo_only fresh)
     = Inr (projr (fst (create_email_message example_mailer example_host ada ''t.html''
                          logo_only fresh)))
   \<and> get_header (projr (fst (create_email_message example_mailer example_host ada ''t.html''
                          logo_only fresh))) ''From'' = Some ''lab@x.com''
   \<and> get_header (projr (fst (create_email_message example_mailer example_host ada ''t.html''
                          logo_only fresh))) ''To'' = Some ''ada@x.com''
   \<and> get_header (projr (fst (create_email_message example_mailer example_host ada ''t.html''
                          logo_only fresh))) ''Subject'' = Some ''Welcome Ada to Tinkering Lab!''"
proof -
  let ?r = "fst (create_email_message example_mailer example_host ada ''t.html''
                   logo_only fresh)"
  have b: "?r = Inr (projr ?r)" by (simp add: script_defs example_defs)
  from C10_headers [OF b] b show ?thesis by (simp add: example_mailer_def ada_def)
qed

section \<open>The order of the two replacements\<close>

text \<open>
  C9.  The HTML part is the template with \<open>{{name}}\<close> replaced first and \<open>{{role}}\<close>
  replaced in the result.  So when the name contains the text \<open>{{role}}\<close> and the
  template a \<open>{{name}}\<close>, the \<open>{{role}}\<close> inside the inserted name is replaced by the
  role in its turn; and when the role contains the text \<open>{{name}}\<close> and the template a
  \<open>{{role}}\<close>, the role is inserted as it is, its \<open>{{name}}\<close> left in place.
\<close>

theorem C9_sequential_substitution:
  assumes "fst (create_email_message self h recipient tp images s) = Inr msg"
    and "recipient ''name'' = Some name" and "recipient ''role'' = Some role"
    and "text_file h tp = Inr tpl"
  shows "html_texts msg = [replace ''{{role}}'' role (replace ''{{name}}'' name tpl)]
       \<and> (\<forall>u v a b. name = u @ ''{{role}}'' @ v \<and> tpl = a @ ''{{name}}'' @ b \<longrightarrow>
            html_texts msg =
              [replace ''{{role}}'' role (replace ''{{name}}'' name a @ u) @ role @
               replace ''{{role}}'' role (v @ replace ''{{name}}'' name b)])
       \<and> (\<forall>u v a b. role = u @ ''{{name}}'' @ v \<and> tpl = a @ ''{{role}}'' @ b \<longrightarrow>
            html_texts msg =
              [replace ''{{role}}'' role (replace ''{{name}}'' name a) @
               (u @ ''{{name}}'' @ v) @
               replace ''{{role}}'' role (replace ''{{name}}'' name b)])"
proof -
  let ?N = "''{{name}}''" and ?R = "''{{role}}''"
  from create_Inr [OF assms(1)] assms(2-4)
  have html: "html_texts msg = [replace ?R role (replace ?N name tpl)]"
    by (auto simp: html_texts_built)
  have inner: "html_texts msg =
      [replace ?R role (replace ?N name a @ u) @ role @ replace ?R role (v @ replace ?N name b)]"
    if nm: "name = u @ ?R @ v" and t: "tpl = a @ ?N @ b" for u v a b
  proof -
    have "replace ?N name (a @ ?N @ b) = replace ?N name a @ name @ replace ?N name b"
      by (rule replace_split) (simp_all add: unbordered_name)
    then have "replace ?N name tpl = (replace ?N name a @ u) @ ?R @ (v @ replace ?N name b)"
      unfolding t by (simp add: nm)
    moreover have "replace ?R role ((replace ?N name a @ u) @ ?R @ (v @ replace ?N name b)) =
        replace ?R role (replace ?N name a @ u) @ role @ replace ?R role (v @ replace ?N name b)"
      by (rule replace_split) (simp_all add: unbordered_role)
    ultimately show ?thesis using html by simp
  qed
  have outer: "html_texts msg =
      [replace ?R role (replace ?N name a) @ (u @ ?N @ v) @ replace ?R role (replace ?N name b)]"
    if rl: "role = u @ ?N @ v" and t: "tpl = a @ ?R @ b" for u v a b
  proof -
    have "replace ?N name tpl = replace ?N name a @ ?R @ replace ?N name b"
      unfolding t by (rule replace_name_keeps_role_token)
    moreover have "replace ?R role (replace ?N name a @ ?R @ replace ?N name b) =
        replace ?R role (replace ?N name a) @ role @ replace ?R role (replace ?N name b)"
      by (rule replace_split) (simp_all add: unbordered_role)
    ultimately have "html_texts msg =
        [replace ?R role (replace ?N name a) @ role @ replace ?R role (replace ?N name b)]"
      using html by simp
    then show ?thesis unfolding rl .
  qed
  from html inner outer show ?thesis by blast
qed

theorem C9_sequential_substitution_witness:
  "nested ''name'' = Some ([] @ ''{{role}}'' @ []) \<and> nested ''role'' = Some ([] @ ''{{name}}'' @ [])
   \<and> text_file example_host ''t.html'' = Inr (''Hello '' @ ''{{name}}'' @ '', role: {{role}}'')
   \<and> html_texts (projr (fst (create_email_message example_mailer example_host nested ''t.html''
         logo_only fresh))) = [''Hello {{name}}, role: {{name}}'']"
proof -
  let ?r = "fst (create_email_message example_mailer example_host nested ''t.html''
                   logo_only fresh)"
  have b: "?r = Inr (projr ?r)" by (simp add: script_defs example_defs nested_def)
  have n: "nested ''name'' = Some ([] @ ''{{role}}'' @ [])"
    and r: "nested ''role'' = Some ([] @ ''{{name}}'' @ [])"
    by (simp_all add: nested_def)
  have t: "text_file example_host ''t.html'' = Inr (''Hello '' @ ''{{name}}'' @ '', role: {{role}}'')"
    by (simp add: example_host_def)
  from C9_sequential_substitution [OF b n r t]
  have "html_texts (projr ?r) =
      [replace ''{{role}}'' ([] @ ''{{name}}'' @ [])
         (replace ''{{name}}'' ([] @ ''{{role}}'' @ []) ''Hello '' @ []) @
       ([] @ ''{{name}}'' @ []) @
       replace ''{{role}}'' ([] @ ''{{name}}'' @ [])
         ([] @ replace ''{{name}}'' ([] @ ''{{role}}'' @ []) '', role: {{role}}'')]"
    by blast
  then have "html_texts (projr ?r) = [''Hello {{name}}, role: {{name}}'']" by simp
  with n r t show ?thesis by blast
qed

section \<open>Image parts\<close>

lemma image_content_ids_built:
  "image_content_ids \<lparr>subtype = st, headers = hs,
               payload = MIMEText t ''html'' # map (image_part h) images\<rparr>
     = map (\<lambda>kv. [''<'' @ fst kv @ ''>'']) images"
  by (induction images) (simp_all add: image_content_ids_def image_part_def Let_def)

lemma content_id_bracketed: "content_id (''<'' @ k @ ''>'') = Some k"
  by (simp add: content_id_def)

lemma image_cids_built:
  "image_cids \<lparr>subtype = st, headers = hs,
               payload = MIMEText t ''html'' # map (image_part h) images\<rparr>
     = map (\<lambda>kv. [Some (fst kv)]) images"
  using content_id_bracketed
  by (simp add: image_cids_def image_content_ids_built)

text \<open>
  C4.  The message \<open>create_email_message\<close> returns has one image part for each entry
  of the image map, in the order of the map, and each image part has exactly one
  Content-ID header, which carries the entry's key as its content identifier: the value
  of the header is the key between angle brackets.  For the image map \<open>{"logo": p}\<close>
  there is exactly one image part, and its content identifier is \<open>logo\<close>.
\<close>

theorem C4_image_part_per_entry:
  assumes "fst (create_email_message self h recipient tp images s) = Inr msg"
  shows "image_cids msg = map (\<lambda>kv. [Some (fst kv)]) images
       \<and> image_content_ids msg = map (\<lambda>kv. [''<'' @ fst kv @ ''>'']) images
       \<and> length (image_cids msg) = length images
       \<and> (\<forall>p. images = [(''logo'', p)] \<longrightarrow> image_cids msg = [[Some ''logo'']])"
proof -
  from create_Inr [OF assms]
  have "image_cids msg = map (\<lambda>kv. [Some (fst kv)]) images"
    and "image_content_ids msg = map (\<lambda>kv. [''<'' @ fst kv @ ''>'']) images"
    by (auto simp: image_cids_built image_content_ids_built)
  then show ?thesis by auto
qed

theorem C4_image_part_per_entry_witness:
  "fst (create_email_message example_mailer example_host ada ''t.html'' logo_only fresh)
     = Inr (projr (fst (create_email_message example_mailer example_host ada ''t.html''
                          logo_only fresh)))
   \<and> logo_only = [(''logo'', ''a.png'')]
   \<and> image_cids (projr (fst (create_email_message example_mailer example_host ada
        ''t.html'' logo_only fresh))) = [[Some ''logo'']]"
proof -
  let ?r = "fst (create_email_message example_mailer example_host ada ''t.html''
                   logo_only fresh)"
  have b: "?r = Inr (projr ?r)" by (simp add: script_defs example_defs)
  have l: "logo_only = [(''logo'', ''a.png'')]" by (simp add: logo_only_def)
  from C4_image_part_per_entry [OF b] l
  have "image_cids (projr ?r) = [[Some ''logo'']]" by blast
  with b l show ?thesis by blast
qed

section \<open>Faults of \<open>create_email_message\<close>\<close>








section \<open>Construction of the mailer\<close>





end
